theory Spec2Isabelle
  imports Complex_Main
begin

section \<open>Python and numpy primitives\<close>

text \<open>
  The exceptions the modelled code can raise. \<open>ValueError\<close> is numpy's
  "negative dimensions are not allowed" (and "slice step cannot be zero"),
  \<open>IndexError\<close> an index outside an array, \<open>ZeroDivisionError\<close> a zero step
  of \<open>np.arange\<close>.
\<close>

datatype error = ValueError | IndexError | ZeroDivisionError

text \<open>\<open>np.ones(n, dtype=bool)\<close>: a fresh array of \<open>n\<close> entries \<open>True\<close>.\<close>

definition np_ones :: "int \<Rightarrow> error + bool list" where
  "np_ones n = (if n < 0 then Inl ValueError else Inr (replicate (nat n) True))"

text \<open>\<open>a[i] = v\<close> and \<open>a[i]\<close> for an index \<open>i \<ge> 0\<close>.\<close>

definition setitem :: "'a list \<Rightarrow> nat \<Rightarrow> 'a \<Rightarrow> error + 'a list" where
  "setitem a i v = (if i < length a then Inr (a[i := v]) else Inl IndexError)"

definition getitem :: "'a list \<Rightarrow> nat \<Rightarrow> error + 'a" where
  "getitem a i = (if i < length a then Inr (a ! i) else Inl IndexError)"

text \<open>
  \<open>int(np.sqrt(n))\<close> for \<open>n \<ge> 0\<close>: the square root in double precision, truncated.
  It is modelled by the exact integer square root, with which it agrees for
  every \<open>n < 2^52\<close>; the rounding of larger arguments is outside the model.
\<close>

fun isqrt :: "nat \<Rightarrow> nat" where
  "isqrt 0 = 0"
| "isqrt (Suc n) = (let r = isqrt n in if Suc n < (r + 1) * (r + 1) then r else r + 1)"

text \<open>
  The slice assignment \<open>a[start:stop:step] = False\<close> for a positive step: the
  indices \<open>start, start + step, ...\<close> below both \<open>stop\<close> and the length are
  overwritten; a slice never raises for being out of range. The first argument
  of \<open>asignar_corte\<close> is the array, the second the running index.
\<close>

function asignar_corte :: "bool list \<Rightarrow> nat \<Rightarrow> nat \<Rightarrow> nat \<Rightarrow> bool list" where
  "asignar_corte a j stop step =
     (if 0 < step \<and> j < stop \<and> j < length a
      then asignar_corte (a[j := False]) (j + step) stop step
      else a)"
  by pat_completeness auto
termination
  by (relation "measure (\<lambda>(a, j, stop, step). stop - j)") auto

declare asignar_corte.simps [simp del]

definition slice_assign_False :: "bool list \<Rightarrow> nat \<Rightarrow> nat \<Rightarrow> nat \<Rightarrow> error + bool list" where
  "slice_assign_False a start stop step =
     (if step = 0 then Inl ValueError else Inr (asignar_corte a start stop step))"

text \<open>\<open>np.where(a)[0]\<close>: the indices of the true entries, ascending.\<close>

definition np_where :: "bool list \<Rightarrow> int list" where
  "np_where a = map int (filter (\<lambda>j. a ! j) [0..<length a])"


section \<open>gemelos.py: the naive generator\<close>

text \<open>
  The body of the loop \<open>for i in range(2, int(np.sqrt(n)) + 1)\<close> of \<open>es_primo\<close>,
  over the values of \<open>i\<close> still to come.
\<close>

fun es_primo_bucle :: "int \<Rightarrow> int list \<Rightarrow> bool" where
  "es_primo_bucle n [] = True"
| "es_primo_bucle n (i # is) = (if n mod i = 0 then False else es_primo_bucle n is)"

definition es_primo :: "int \<Rightarrow> bool" where
  "es_primo n = (if n < 2 then False else es_primo_bucle n [2..int (isqrt (nat n))])"

text \<open>\<open>generar_primos\<close>: the loop over \<open>range(2, limite + 1)\<close>, appending to \<open>primos\<close>.\<close>

fun generar_primos_bucle :: "int list \<Rightarrow> int list \<Rightarrow> int list" where
  "generar_primos_bucle [] primos = primos"
| "generar_primos_bucle (n # ns) primos =
     generar_primos_bucle ns (if es_primo n then primos @ [n] else primos)"

definition generar_primos :: "int \<Rightarrow> int list" where
  "generar_primos limite = generar_primos_bucle [2..limite] []"

text \<open>
  The extraction loop \<open>for i in range(len(primos) - 1)\<close>, written twice in the
  source with the same text (in \<open>encontrar_primos_gemelos\<close> and in
  \<open>encontrar_primos_gemelos_optimizado\<close>). Every index it reads is below
  \<open>len(primos)\<close> (lemma \<open>extraer_indices_in_range\<close>).
\<close>

fun gemelos_bucle :: "int list \<Rightarrow> nat list \<Rightarrow> (int \<times> int) list \<Rightarrow> (int \<times> int) list" where
  "gemelos_bucle primos [] gemelos = gemelos"
| "gemelos_bucle primos (i # is) gemelos =
     gemelos_bucle primos is
       (if primos ! (i + 1) - primos ! i = 2
        then gemelos @ [(primos ! i, primos ! (i + 1))]
        else gemelos)"

definition extraer_gemelos :: "int list \<Rightarrow> (int \<times> int) list" where
  "extraer_gemelos primos = gemelos_bucle primos [0..<length primos - 1] []"

definition encontrar_primos_gemelos :: "int \<Rightarrow> (int \<times> int) list" where
  "encontrar_primos_gemelos limite = extraer_gemelos (generar_primos limite)"


section \<open>optimizado.py: the sieve\<close>

text \<open>
  The loop \<open>for i in range(2, int(np.sqrt(limite)) + 1)\<close> of
  \<open>criba_eratostenes\<close>, over the values of \<open>i\<close> still to come, on the marker
  array \<open>es\<close> (the source's local \<open>es_primo\<close>).
\<close>

fun criba_bucle :: "int \<Rightarrow> nat list \<Rightarrow> bool list \<Rightarrow> error + bool list" where
  "criba_bucle limite [] es = Inr es"
| "criba_bucle limite (i # is) es =
     (case getitem es i of
        Inl e \<Rightarrow> Inl e
      | Inr b \<Rightarrow>
          if b then
            (case slice_assign_False es (i * i) (nat (limite + 1)) i of
               Inl e \<Rightarrow> Inl e
             | Inr es' \<Rightarrow> criba_bucle limite is es')
          else criba_bucle limite is es)"

definition criba_eratostenes :: "int \<Rightarrow> error + int list" where
  "criba_eratostenes limite =
     (case np_ones (limite + 1) of
        Inl e \<Rightarrow> Inl e
      | Inr es0 \<Rightarrow>
     (case setitem es0 0 False of
        Inl e \<Rightarrow> Inl e
      | Inr es1 \<Rightarrow>
     (case setitem es1 1 False of
        Inl e \<Rightarrow> Inl e
      | Inr es2 \<Rightarrow>
     (case criba_bucle limite [2..<isqrt (nat limite) + 1] es2 of
        Inl e \<Rightarrow> Inl e
      | Inr es3 \<Rightarrow> Inr (np_where es3)))))"

definition encontrar_primos_gemelos_optimizado :: "int \<Rightarrow> error + (int \<times> int) list" where
  "encontrar_primos_gemelos_optimizado limite =
     (case criba_eratostenes limite of
        Inl e \<Rightarrow> Inl e
      | Inr primos \<Rightarrow> Inr (extraer_gemelos primos))"


section \<open>interfaz.py: the guard of the entry points\<close>

text \<open>
  The entry points that start a generation test \<open>limite <= 0\<close> before they call
  a generator (\<open>menu\<close> of gemelos.py, the main blocks of optimizado.py and
  estadisticas.py, the method \<open>generar_primos\<close> of the window). The method of
  the window is modelled: it shows the error message (the limit must be a positive
  number) and returns, or stores the pairs of the chosen method. The generators
  themselves test nothing, and the method \<open>mostrar_estadisticas\<close> of the window
  calls \<open>criba_eratostenes(self.limite.get())\<close> without the test.
\<close>

datatype metodo = Basico | Optimizado

datatype respuesta = LimiteRechazado | GemelosGuardados "(int \<times> int) list"

definition interfaz_generar_primos :: "metodo \<Rightarrow> int \<Rightarrow> error + respuesta" where
  "interfaz_generar_primos m limite =
     (if limite \<le> 0 then Inr LimiteRechazado
      else (case m of
              Basico \<Rightarrow> Inr (GemelosGuardados (encontrar_primos_gemelos limite))
            | Optimizado \<Rightarrow>
                (case encontrar_primos_gemelos_optimizado limite of
                   Inl e \<Rightarrow> Inl e
                 | Inr gemelos \<Rightarrow> Inr (GemelosGuardados gemelos))))"


section \<open>estadisticas.py\<close>

subsection \<open>Density over windows\<close>

text \<open>
  \<open>np.arange(0, stop, step)\<close> on integers: \<open>0, step, 2 step, ...\<close>, as many as
  the ceiling of \<open>stop / step\<close> when that is positive; a zero step raises
  (a division by zero).
\<close>

definition np_arange :: "int \<Rightarrow> int \<Rightarrow> error + int list" where
  "np_arange stop step =
     (if step = 0 then Inl ZeroDivisionError
      else Inr (map (\<lambda>k. int k * step) [0..<nat (- ((- stop) div step))]))"

text \<open>
  The loop \<open>for i in range(len(ventanas) - 1)\<close> of \<open>calcular_densidad\<close>; the
  state is the pair of lists \<open>(centros_ventanas, densidades)\<close>. The divisions
  are Python's true division, taken in the reals.
\<close>

fun densidad_bucle ::
  "int list \<Rightarrow> int list \<Rightarrow> int \<Rightarrow> nat list \<Rightarrow> real list \<times> real list \<Rightarrow> real list \<times> real list" where
  "densidad_bucle primeros_primos ventanas tam_ventana [] acc = acc"
| "densidad_bucle primeros_primos ventanas tam_ventana (i # is) (centros_ventanas, densidades) =
     (let inicio = ventanas ! i;
          fin = ventanas ! (i + 1);
          centro = real_of_int (inicio + fin) / 2;
          count = length (filter (\<lambda>p. inicio \<le> p \<and> p < fin) primeros_primos);
          densidad = real count / real_of_int tam_ventana
      in densidad_bucle primeros_primos ventanas tam_ventana is
           (centros_ventanas @ [centro], densidades @ [densidad]))"

definition calcular_densidad ::
  "(int \<times> int) list \<Rightarrow> int \<Rightarrow> int \<Rightarrow> error + real list \<times> real list" where
  "calcular_densidad gemelos limite tam_ventana =
     (let primeros_primos = map fst gemelos in
      case np_arange limite tam_ventana of
        Inl e \<Rightarrow> Inl e
      | Inr ventanas \<Rightarrow>
          Inr (densidad_bucle primeros_primos ventanas tam_ventana
                 [0..<length ventanas - 1] ([], [])))"

text \<open>
  The window size \<open>visualizar_analisis_completo\<close> passes:
  \<open>max(limite // 100, 10)\<close>. (The parameter's own default in the signature of
  \<open>calcular_densidad\<close> is 100.)
\<close>

definition tam_ventana_analisis :: "int \<Rightarrow> int" where
  "tam_ventana_analisis limite = max (limite div 100) 10"

subsection \<open>Distances between consecutive pairs\<close>

text \<open>
  \<open>np.mean\<close>, \<open>np.median\<close> and \<open>np.std\<close> of a non-empty list of integers,
  in exact real arithmetic (the rounding of the double-precision results is
  outside the model). \<open>np.std\<close> divides by \<open>N - ddof\<close>; its default, which the
  program uses, is \<open>ddof = 0\<close>.
\<close>

definition np_mean :: "int list \<Rightarrow> real" where
  "np_mean xs = (\<Sum>x\<leftarrow>xs. real_of_int x) / real (length xs)"

definition np_median :: "int list \<Rightarrow> real" where
  "np_median xs =
     (let s = sort xs; n = length xs
      in if even n then real_of_int (s ! (n div 2 - 1) + s ! (n div 2)) / 2
         else real_of_int (s ! (n div 2)))"

definition np_std :: "nat \<Rightarrow> int list \<Rightarrow> real" where
  "np_std ddof xs =
     sqrt ((\<Sum>x\<leftarrow>xs. (real_of_int x - np_mean xs)\<^sup>2) / real (length xs - ddof))"

fun distancias_bucle :: "(int \<times> int) list \<Rightarrow> nat list \<Rightarrow> int list \<Rightarrow> int list" where
  "distancias_bucle gemelos [] distancias = distancias"
| "distancias_bucle gemelos (i # is) distancias =
     (let distancia = fst (gemelos ! (i + 1)) - fst (gemelos ! i)
      in distancias_bucle gemelos is (distancias @ [distancia]))"

definition analizar_distancias_entre_gemelos ::
  "(int \<times> int) list \<Rightarrow> int list \<times> real \<times> real \<times> real" where
  "analizar_distancias_entre_gemelos gemelos =
     (if length gemelos < 2 then ([], 0, 0, 0)
      else
        (let distancias = distancias_bucle gemelos [0..<length gemelos - 1] [];
             media = np_mean distancias;
             mediana = np_median distancias;
             desviacion = np_std 0 distancias
         in (distancias, media, mediana, desviacion)))"

subsection \<open>Share of the primes that are in a twin pair\<close>

text \<open>
  \<open>np.linspace(0, stop, num)\<close>: \<open>num\<close> points, computed in double precision; a
  negative \<open>num\<close> raises. The first point is \<open>0 * step + 0\<close>, which is 0, and
  numpy stores \<open>stop\<close> itself as the last point. The points between them are
  the doubles \<open>k * step\<close>, whose rounding is not modelled: they are the
  parameter \<open>borde\<close>, so that every theorem holds whatever they are.
\<close>

definition np_linspace :: "(nat \<Rightarrow> real) \<Rightarrow> int \<Rightarrow> int \<Rightarrow> error + real list" where
  "np_linspace borde stop num =
     (if num < 0 then Inl ValueError
      else Inr (map (\<lambda>k. if k = 0 then 0
                       else if k = nat num - 1 then real_of_int stop
                       else borde k) [0..<nat num]))"

text \<open>
  The loop \<open>for i in range(len(ventanas) - 1)\<close> of section 4 of
  \<open>visualizar_analisis_completo\<close>; the state is \<open>(proporciones, centros_ventanas)\<close>.
\<close>

fun proporcion_bucle ::
  "int list \<Rightarrow> (int \<times> int) list \<Rightarrow> real list \<Rightarrow> nat list \<Rightarrow> real list \<times> real list
     \<Rightarrow> real list \<times> real list" where
  "proporcion_bucle todos_primos gemelos ventanas [] acc = acc"
| "proporcion_bucle todos_primos gemelos ventanas (i # is) (proporciones, centros_ventanas) =
     (let inicio = ventanas ! i;
          fin = ventanas ! (i + 1);
          centro = (inicio + fin) / 2;
          primos_en_ventana =
            length (filter (\<lambda>p. inicio \<le> real_of_int p \<and> real_of_int p < fin) todos_primos);
          gemelos_en_ventana =
            length (filter (\<lambda>g. inicio \<le> real_of_int (fst g) \<and> real_of_int (fst g) < fin) gemelos)
      in if primos_en_ventana > 0
         then proporcion_bucle todos_primos gemelos ventanas is
                (proporciones @ [real (gemelos_en_ventana * 2) / real primos_en_ventana],
                 centros_ventanas @ [centro])
         else proporcion_bucle todos_primos gemelos ventanas is (proporciones, centros_ventanas))"

text \<open>
  The part of \<open>visualizar_analisis_completo\<close> that computes the series of the
  fourth plot, from \<open>limite\<close>: the pairs, all the primes, the edges and the loop.
  \<open>borde\<close> stands for the inner points of \<open>np.linspace\<close>.
\<close>

definition proporcion_analisis :: "(nat \<Rightarrow> real) \<Rightarrow> int \<Rightarrow> error + real list \<times> real list" where
  "proporcion_analisis borde limite =
     (case encontrar_primos_gemelos_optimizado limite of
        Inl e \<Rightarrow> Inl e
      | Inr gemelos \<Rightarrow>
     (case criba_eratostenes limite of
        Inl e \<Rightarrow> Inl e
      | Inr todos_primos \<Rightarrow>
     (case np_linspace borde limite (min 100 (limite div 10)) of
        Inl e \<Rightarrow> Inl e
      | Inr ventanas \<Rightarrow>
          Inr (proporcion_bucle todos_primos gemelos ventanas
                 [0..<length ventanas - 1] ([], [])))))"


subsection \<open>Comparison with the theoretical estimate\<close>






section \<open>Specification-side notions\<close>

text \<open>
  A prime, in the words of arithmetic: an integer above 1 whose only positive
  divisors are 1 and itself. \<open>es_primo\<close> is compared with it below.
\<close>

definition primo :: "int \<Rightarrow> bool" where
  "primo n \<longleftrightarrow> 1 < n \<and> (\<forall>d. 0 < d \<and> d dvd n \<longrightarrow> d = 1 \<or> d = n)"

text \<open>
  The density over windows in the words of the specification: the fixed-size
  windows that partition \<open>[0, limite)\<close>, a trailing partial window dropped.
\<close>

definition densidad_segun_spec :: "(int \<times> int) list \<Rightarrow> int \<Rightarrow> int \<Rightarrow> real list \<times> real list" where
  "densidad_segun_spec gemelos limite tam_ventana =
     (let ks = [0..<nat (limite div tam_ventana)] in
      (map (\<lambda>k. (real k + 1 / 2) * real_of_int tam_ventana) ks,
       map (\<lambda>k. real (length (filter (\<lambda>g. int k * tam_ventana \<le> fst g
                                         \<and> fst g < (int k + 1) * tam_ventana) gemelos))
                  / real_of_int tam_ventana) ks))"

text \<open>
  The invariant of the sieve's loop when the candidates below \<open>k\<close> have been
  handled, on a marker array for the limit \<open>N\<close>: an index is still marked iff
  it is at least 2 and no \<open>d\<close> with \<open>2 \<le> d < k\<close> and \<open>d * d \<le> j\<close> divides it.
\<close>

definition criba_inv :: "nat \<Rightarrow> nat \<Rightarrow> bool list \<Rightarrow> bool" where
  "criba_inv N k es \<longleftrightarrow>
     length es = N + 1 \<and>
     (\<forall>j \<le> N. es ! j \<longleftrightarrow> 2 \<le> j \<and> (\<forall>d. 2 \<le> d \<and> d < k \<and> d * d \<le> j \<longrightarrow> \<not> d dvd j))"


section \<open>The integer square root and the naive primality test\<close>

lemma isqrt_bounds: "isqrt n * isqrt n \<le> n \<and> n < (isqrt n + 1) * (isqrt n + 1)"
proof (induction n)
  case 0
  show ?case by simp
next
  case (Suc n)
  then show ?case by (auto simp: Let_def)
qed

lemma isqrt_le_iff: "d \<le> isqrt n \<longleftrightarrow> d * d \<le> n"
proof
  assume "d \<le> isqrt n"
  then have "d * d \<le> isqrt n * isqrt n" by (simp add: mult_le_mono)
  with isqrt_bounds [of n] show "d * d \<le> n" by linarith
next
  assume h: "d * d \<le> n"
  show "d \<le> isqrt n"
  proof (rule ccontr)
    assume "\<not> d \<le> isqrt n"
    then have "isqrt n + 1 \<le> d" by simp
    then have "(isqrt n + 1) * (isqrt n + 1) \<le> d * d" by (intro mult_le_mono)
    with isqrt_bounds [of n] h show False by linarith
  qed
qed

lemma es_primo_bucle_iff: "es_primo_bucle n ds \<longleftrightarrow> (\<forall>i \<in> set ds. n mod i \<noteq> 0)"
  by (induction ds) auto

lemma es_primo_iff:
  "es_primo n \<longleftrightarrow> 2 \<le> n \<and> (\<forall>d. 2 \<le> d \<and> d * d \<le> n \<longrightarrow> \<not> d dvd n)"
proof (cases "n < 2")
  case True
  then show ?thesis by (simp add: es_primo_def)
next
  case False
  have r: "d \<le> int (isqrt (nat n)) \<longleftrightarrow> d * d \<le> n" if "2 \<le> d" for d
  proof -
    have "d \<le> int (isqrt (nat n)) \<longleftrightarrow> nat d \<le> isqrt (nat n)" using that by linarith
    also have "\<dots> \<longleftrightarrow> nat d * nat d \<le> nat n" by (rule isqrt_le_iff)
    also have "\<dots> \<longleftrightarrow> d * d \<le> n" using that False
      by (metis nat_le_eq_zle nat_mult_distrib not_less zero_le_numeral order_trans)
    finally show ?thesis .
  qed
  show ?thesis using False r
    by (auto simp: es_primo_def es_primo_bucle_iff dvd_eq_mod_eq_0)
qed

lemma es_primo_primo: "es_primo n \<longleftrightarrow> primo n"
proof
  assume h: "es_primo n"
  then have n: "2 \<le> n" and nd: "\<And>d. 2 \<le> d \<Longrightarrow> d * d \<le> n \<Longrightarrow> \<not> d dvd n"
    by (auto simp: es_primo_iff)
  have "d = 1 \<or> d = n" if d: "0 < d" "d dvd n" for d
  proof (rule ccontr)
    assume c: "\<not> (d = 1 \<or> d = n)"
    from d obtain e where e: "n = d * e" by auto
    have e0: "0 < e"
    proof (rule ccontr)
      assume "\<not> 0 < e"
      then have "d * e \<le> 0" using d(1) by (simp add: mult_le_0_iff)
      with e n show False by simp
    qed
    from c e d have e1: "e \<noteq> 1" by auto
    from c d have d2: "2 \<le> d" by linarith
    from e0 e1 have e2: "2 \<le> e" by linarith
    show False
    proof (cases "d \<le> e")
      case True
      then have "d * d \<le> d * e" using d by (simp add: mult_left_mono)
      with nd [of d] d2 d e show False by simp
    next
      case False
      then have "e * e \<le> d * e" using e0 by (simp add: mult_right_mono)
      moreover have "e dvd n" using e by simp
      ultimately show False using nd [of e] e2 e by simp
    qed
  qed
  with n show "primo n" by (simp add: primo_def)
next
  assume p: "primo n"
  then have n: "1 < n" by (simp add: primo_def)
  have "\<not> d dvd n" if d: "2 \<le> d" "d * d \<le> n" for d
  proof
    assume "d dvd n"
    moreover have "0 < d" "d \<noteq> 1" using d(1) by simp_all
    ultimately have "d = n" using p unfolding primo_def by blast
    with d have "n * n \<le> n * 1" by simp
    then have "n \<le> 1" using n by (simp only: mult_le_cancel_left_pos)
    with n show False by simp
  qed
  with n show "es_primo n" by (auto simp: es_primo_iff)
qed

lemma le_floor_sqrt_iff:
  assumes "0 \<le> d" "0 \<le> n"
  shows "d \<le> \<lfloor>sqrt (real_of_int n)\<rfloor> \<longleftrightarrow> d * d \<le> n"
proof -
  have "d \<le> \<lfloor>sqrt (real_of_int n)\<rfloor> \<longleftrightarrow> real_of_int d \<le> sqrt (real_of_int n)"
    by (simp add: le_floor_iff)
  also have "\<dots> \<longleftrightarrow> (real_of_int d)\<^sup>2 \<le> real_of_int n"
  proof
    assume "real_of_int d \<le> sqrt (real_of_int n)"
    then have "(real_of_int d)\<^sup>2 \<le> (sqrt (real_of_int n))\<^sup>2"
      using assms by (intro power_mono) auto
    then show "(real_of_int d)\<^sup>2 \<le> real_of_int n" using assms by simp
  next
    assume "(real_of_int d)\<^sup>2 \<le> real_of_int n"
    then show "real_of_int d \<le> sqrt (real_of_int n)" by (rule real_le_rsqrt)
  qed
  also have "\<dots> \<longleftrightarrow> d * d \<le> n"
    by (metis of_int_le_iff of_int_mult power2_eq_square)
  finally show ?thesis .
qed

text \<open>
  C4. For every integer \<open>n\<close>: \<open>es_primo n\<close> is false when \<open>n < 2\<close>; for \<open>n \<ge> 2\<close>
  it is false iff some integer \<open>d\<close> with \<open>2 \<le> d \<le> floor (sqrt n)\<close> divides \<open>n\<close>;
  and it is true exactly when \<open>n\<close> is prime.
\<close>

theorem es_primo_correct:
  "(n < 2 \<longrightarrow> \<not> es_primo n) \<and>
   (2 \<le> n \<longrightarrow> (\<not> es_primo n \<longleftrightarrow> (\<exists>d. 2 \<le> d \<and> d \<le> \<lfloor>sqrt (real_of_int n)\<rfloor> \<and> d dvd n))) \<and>
   (es_primo n \<longleftrightarrow> primo n)"
proof (intro conjI impI)
  assume "n < 2" then show "\<not> es_primo n" by (simp add: es_primo_def)
next
  assume n: "2 \<le> n"
  have "(2 \<le> d \<and> d \<le> \<lfloor>sqrt (real_of_int n)\<rfloor>) = (2 \<le> d \<and> d * d \<le> n)" for d
    using le_floor_sqrt_iff [of d n] n by auto
  then show "\<not> es_primo n \<longleftrightarrow> (\<exists>d. 2 \<le> d \<and> d \<le> \<lfloor>sqrt (real_of_int n)\<rfloor> \<and> d dvd n)"
    using n by (auto simp: es_primo_iff)
next
  show "es_primo n \<longleftrightarrow> primo n" by (rule es_primo_primo)
qed

theorem es_primo_correct_witness:
  "\<not> es_primo 1 \<and> (2::int) \<le> 9 \<and> \<not> es_primo 9
   \<and> (\<exists>d. 2 \<le> d \<and> d \<le> \<lfloor>sqrt (real_of_int 9)\<rfloor> \<and> d dvd (9::int))
   \<and> es_primo 7 \<and> primo 7"
proof -
  have a: "\<not> es_primo 9" by code_simp
  have b: "es_primo 7" by code_simp
  have c: "(1::int) < 2" by simp
  show ?thesis
    using es_primo_correct [of 1] es_primo_correct [of 9] es_primo_correct [of 7] a b c
    by simp
qed


section \<open>The sieve computes the primes of the naive generator\<close>

lemma length_asignar_corte [simp]: "length (asignar_corte a j stop step) = length a"
proof (induction a j stop step rule: asignar_corte.induct)
  case (1 a j stop step)
  show ?case
    by (subst asignar_corte.simps) (use 1 in auto)
qed

lemma asignar_corte_nth:
  "0 < step \<Longrightarrow> k < length a \<Longrightarrow>
   asignar_corte a j stop step ! k = (a ! k \<and> \<not> (j \<le> k \<and> k < stop \<and> step dvd (k - j)))"
proof (induction a j stop step rule: asignar_corte.induct)
  case (1 a j stop step)
  show ?case
  proof (cases "0 < step \<and> j < stop \<and> j < length a")
    case True
    have eq: "asignar_corte a j stop step = asignar_corte (a[j := False]) (j + step) stop step"
      by (subst asignar_corte.simps) (use True in simp)
    have ih: "asignar_corte (a[j := False]) (j + step) stop step ! k =
        ((a[j := False]) ! k \<and> \<not> (j + step \<le> k \<and> k < stop \<and> step dvd (k - (j + step))))"
      using 1 True by simp
    have dv: "(j + step \<le> k \<and> step dvd (k - (j + step))) \<longleftrightarrow> step dvd (k - j)" if "j < k"
    proof
      assume h: "j + step \<le> k \<and> step dvd (k - (j + step))"
      then have "k - j = (k - (j + step)) + step" by simp
      with h show "step dvd (k - j)" by (metis dvd_add_triv_right_iff)
    next
      assume h: "step dvd (k - j)"
      from that have "0 < k - j" by simp
      with h have "step \<le> k - j" by (rule_tac dvd_imp_le)
      with that have le: "j + step \<le> k" by linarith
      then have "k - j = (k - (j + step)) + step" by simp
      with h have "step dvd (k - (j + step))" by (metis dvd_add_triv_right_iff)
      with le show "j + step \<le> k \<and> step dvd (k - (j + step))" by simp
    qed
    consider "k = j" | "k < j" | "j < k" by linarith
    then show ?thesis
    proof cases
      case 1
      with True \<open>k < length a\<close> show ?thesis unfolding eq ih by simp
    next
      case 2
      with \<open>k < length a\<close> show ?thesis unfolding eq ih by simp
    next
      case 3
      with \<open>k < length a\<close> dv [OF 3] show ?thesis unfolding eq ih by auto
    qed
  next
    case False
    have eq: "asignar_corte a j stop step = a"
      by (subst asignar_corte.simps) (use False in auto)
    from False 1(2,3) show ?thesis by (auto simp: eq)
  qed
qed

lemma criba_paso:
  assumes inv: "criba_inv N k es" and k: "2 \<le> k" "k \<le> N"
  shows "criba_inv N (Suc k) (if es ! k then asignar_corte es (k * k) (N + 1) k else es)"
proof (cases "es ! k")
  case True
  have len: "length es = N + 1" using inv by (simp add: criba_inv_def)
  have "asignar_corte es (k * k) (N + 1) k ! j \<longleftrightarrow>
        2 \<le> j \<and> (\<forall>d. 2 \<le> d \<and> d < Suc k \<and> d * d \<le> j \<longrightarrow> \<not> d dvd j)" if j: "j \<le> N" for j
  proof -
    have a: "asignar_corte es (k * k) (N + 1) k ! j =
        (es ! j \<and> \<not> (k * k \<le> j \<and> j < N + 1 \<and> k dvd (j - k * k)))"
      using k j len by (intro asignar_corte_nth) auto
    have b: "k dvd (j - k * k) \<longleftrightarrow> k dvd j" if "k * k \<le> j"
      using that by (metis dvd_diffD dvd_diff_nat dvd_triv_left)
    have c: "es ! j \<longleftrightarrow> 2 \<le> j \<and> (\<forall>d. 2 \<le> d \<and> d < k \<and> d * d \<le> j \<longrightarrow> \<not> d dvd j)"
      using inv j by (simp add: criba_inv_def)
    show ?thesis unfolding a c using b j k
      by (auto simp: less_Suc_eq)
  qed
  with True len show ?thesis by (simp add: criba_inv_def)
next
  case False
  have len: "length es = N + 1" using inv by (simp add: criba_inv_def)
  from inv k False obtain d where d: "2 \<le> d" "d < k" "d * d \<le> k" "d dvd k"
    by (auto simp: criba_inv_def)
  have "es ! j \<longleftrightarrow>
        2 \<le> j \<and> (\<forall>d. 2 \<le> d \<and> d < Suc k \<and> d * d \<le> j \<longrightarrow> \<not> d dvd j)" if j: "j \<le> N" for j
  proof -
    have c: "es ! j \<longleftrightarrow> 2 \<le> j \<and> (\<forall>d. 2 \<le> d \<and> d < k \<and> d * d \<le> j \<longrightarrow> \<not> d dvd j)"
      using inv j by (simp add: criba_inv_def)
    have "\<exists>d'. 2 \<le> d' \<and> d' < k \<and> d' * d' \<le> j \<and> d' dvd j" if "k * k \<le> j" "k dvd j"
    proof -
      have "k \<le> k * k" using k by simp
      with d(3) that(1) have "d * d \<le> j" by linarith
      moreover have "d dvd j" using d(4) that(2) by (rule dvd_trans)
      ultimately show ?thesis using d by blast
    qed
    then show ?thesis unfolding c by (auto simp: less_Suc_eq)
  qed
  with False len show ?thesis by (simp add: criba_inv_def)
qed

lemma criba_bucle_inv:
  assumes "criba_inv (nat limite) k es" "2 \<le> k" "k \<le> m" "m \<le> nat limite + 1" "1 \<le> limite"
  shows "\<exists>es'. criba_bucle limite [k..<m] es = Inr es' \<and> criba_inv (nat limite) m es'"
  using assms
proof (induction "m - k" arbitrary: k es)
  case 0
  then show ?case by simp
next
  case (Suc n)
  then have km: "k < m" by simp
  have len: "length es = nat limite + 1" using Suc.prems(1) by (simp add: criba_inv_def)
  have up: "[k..<m] = k # [Suc k..<m]" using km by (simp add: upt_conv_Cons)
  have get: "getitem es k = Inr (es ! k)" using km Suc.prems(4) len by (simp add: getitem_def)
  have sl: "slice_assign_False es (k * k) (nat (limite + 1)) k
      = Inr (asignar_corte es (k * k) (nat limite + 1) k)"
    using Suc.prems(2,5) by (simp add: slice_assign_False_def nat_add_distrib)
  let ?es = "if es ! k then asignar_corte es (k * k) (nat limite + 1) k else es"
  have inv': "criba_inv (nat limite) (Suc k) ?es"
    using Suc.prems km by (intro criba_paso) auto
  have "\<exists>es'. criba_bucle limite [Suc k..<m] ?es = Inr es' \<and> criba_inv (nat limite) m es'"
    using Suc.hyps Suc.prems km inv' by (intro Suc.hyps(1)) auto
  moreover have "criba_bucle limite [k..<m] es = criba_bucle limite [Suc k..<m] ?es"
    by (simp add: up get sl)
  ultimately show ?case by simp
qed

lemma map_int_upt: "map int [a..<b] = [int a..int b - 1]"
proof (induction b)
  case 0
  show ?case by simp
next
  case (Suc b)
  show ?case
  proof (cases "a \<le> b")
    case True
    then have "[int a..int b] = [int a..int b - 1] @ [int b]"
      by (simp add: upto_rec2)
    with True Suc show ?thesis by simp
  next
    case False
    then show ?thesis by simp
  qed
qed

lemma generar_primos_bucle_filter:
  "generar_primos_bucle ns primos = primos @ filter es_primo ns"
  by (induction ns arbitrary: primos) auto

lemma generar_primos_filter: "generar_primos limite = filter es_primo [2..limite]"
  by (simp add: generar_primos_def generar_primos_bucle_filter)

lemma criba_inv_final:
  assumes inv: "criba_inv N (isqrt N + 1) es" and j: "j \<le> N"
  shows "es ! j \<longleftrightarrow> es_primo (int j)"
proof -
  have a: "es ! j \<longleftrightarrow> 2 \<le> j \<and> (\<forall>d. 2 \<le> d \<and> d < isqrt N + 1 \<and> d * d \<le> j \<longrightarrow> \<not> d dvd j)"
    using inv j by (simp add: criba_inv_def)
  have b: "d < isqrt N + 1" if "d * d \<le> j" for d
  proof -
    from that j have "d * d \<le> N" by simp
    then have "d \<le> isqrt N" by (simp add: isqrt_le_iff)
    then show ?thesis by simp
  qed
  have c: "(\<forall>d::int. 2 \<le> d \<and> d * d \<le> int j \<longrightarrow> \<not> d dvd int j)
       \<longleftrightarrow> (\<forall>d::nat. 2 \<le> d \<and> d * d \<le> j \<longrightarrow> \<not> d dvd j)"
  proof
    assume h: "\<forall>d::int. 2 \<le> d \<and> d * d \<le> int j \<longrightarrow> \<not> d dvd int j"
    show "\<forall>d::nat. 2 \<le> d \<and> d * d \<le> j \<longrightarrow> \<not> d dvd j"
    proof (intro allI impI)
      fix d :: nat assume d: "2 \<le> d \<and> d * d \<le> j"
      then have "2 \<le> int d \<and> int d * int d \<le> int j"
        by (metis of_nat_mult of_nat_le_iff of_nat_numeral)
      with h have "\<not> int d dvd int j" by blast
      then show "\<not> d dvd j" by simp
    qed
  next
    assume h: "\<forall>d::nat. 2 \<le> d \<and> d * d \<le> j \<longrightarrow> \<not> d dvd j"
    show "\<forall>d::int. 2 \<le> d \<and> d * d \<le> int j \<longrightarrow> \<not> d dvd int j"
    proof (intro allI impI)
      fix d :: int assume d: "2 \<le> d \<and> d * d \<le> int j"
      then have e: "d = int (nat d)" by simp
      with d have "2 \<le> nat d \<and> nat d * nat d \<le> j"
        by (metis nat_le_iff nat_mult_distrib nat_numeral zero_le_numeral order_trans nat_mono)
      with h have "\<not> nat d dvd j" by blast
      then show "\<not> d dvd int j" using e by (metis int_dvd_int_iff)
    qed
  qed
  show ?thesis unfolding a es_primo_iff c using b by auto
qed

lemma criba_eratostenes_generar_primos:
  assumes "1 \<le> limite"
  shows "criba_eratostenes limite = Inr (generar_primos limite)"
proof -
  define N where "N = nat limite"
  have N: "1 \<le> N" "limite = int N" using assms by (simp_all add: N_def)
  define es2 where "es2 = (replicate (N + 1) True)[0 := False, 1 := False]"
  have ones: "np_ones (limite + 1) = Inr (replicate (N + 1) True)"
    using assms by (simp add: np_ones_def N_def nat_add_distrib)
  have s0: "setitem (replicate (N + 1) True) 0 False = Inr ((replicate (N + 1) True)[0 := False])"
    by (simp add: setitem_def)
  have s1: "setitem ((replicate (N + 1) True)[0 := False]) 1 False = Inr es2"
    using N by (simp add: setitem_def es2_def)
  have "es2 ! j \<longleftrightarrow> 2 \<le> j" if "j \<le> N" for j
    unfolding es2_def using that N
    by (auto simp add: nth_list_update simp del: replicate.simps)
  moreover have "length es2 = N + 1" by (simp add: es2_def)
  ultimately have inv2: "criba_inv N 2 es2"
    unfolding criba_inv_def by auto
  have "isqrt N * isqrt N \<le> N" using isqrt_bounds by blast
  moreover have "isqrt N \<le> isqrt N * isqrt N" by (cases "isqrt N") auto
  ultimately have sq: "isqrt N \<le> N" by linarith
  have one: "1 \<le> isqrt N" using N by (simp add: isqrt_le_iff)
  obtain es3 where es3: "criba_bucle limite [2..<isqrt N + 1] es2 = Inr es3"
      and inv3: "criba_inv N (isqrt N + 1) es3"
    using criba_bucle_inv [of limite 2 es2 "isqrt N + 1"] inv2 sq one assms
    unfolding N_def by auto
  have len3: "length es3 = N + 1" using inv3 by (simp add: criba_inv_def)
  have "[0..<N + 1] = 0 # [1..<N + 1]"
    by (simp add: upt_conv_Cons del: upt_Suc)
  moreover have "[1..<N + 1] = 1 # [2..<N + 1]"
    using N by (simp add: upt_conv_Cons numeral_2_eq_2 del: upt_Suc)
  ultimately have split: "[0..<N + 1] = [0, 1] @ [2..<N + 1]"
    by simp
  have f01: "\<not> es3 ! 0" "\<not> es3 ! 1"
    using criba_inv_final [OF inv3, of 0] criba_inv_final [OF inv3, of 1] N
    by (simp_all add: es_primo_def)
  have fc: "filter (\<lambda>j. es3 ! j) [2..<N + 1] = filter (\<lambda>j. es_primo (int j)) [2..<N + 1]"
    by (rule filter_cong) (use criba_inv_final [OF inv3] in auto)
  have "np_where es3 = map int (filter (\<lambda>j. es3 ! j) ([0, 1] @ [2..<N + 1]))"
    by (simp only: np_where_def len3 split)
  also have "\<dots> = map int (filter (\<lambda>j. es3 ! j) [2..<N + 1])"
    using f01 by (simp del: upt_Suc)
  also have "\<dots> = map int (filter (\<lambda>j. es_primo (int j)) [2..<N + 1])"
    by (simp only: fc)
  also have "\<dots> = filter es_primo (map int [2..<N + 1])"
    by (simp add: filter_map comp_def)
  also have "\<dots> = filter es_primo [2..limite]"
  proof -
    have "map int [2..<N + 1] = [2..limite]"
      unfolding map_int_upt using N(2) by simp
    then show ?thesis by (simp only:)
  qed
  finally have w: "np_where es3 = generar_primos limite"
    by (simp add: generar_primos_filter)
  show ?thesis
    using ones s0 s1 es3 w unfolding N_def [symmetric]
    by (simp add: criba_eratostenes_def N_def)
qed

lemma encontrar_optimizado_basico:
  assumes "1 \<le> limite"
  shows "encontrar_primos_gemelos_optimizado limite = Inr (encontrar_primos_gemelos limite)"
  by (simp add: encontrar_primos_gemelos_optimizado_def encontrar_primos_gemelos_def
      criba_eratostenes_generar_primos [OF assms])

text \<open>
  For every limit \<open>N \<ge> 1\<close> the sieve \<open>criba_eratostenes N\<close> returns, and returns
  the ordered sequence of \<open>generar_primos N\<close>; consequently
  \<open>encontrar_primos_gemelos_optimizado N\<close> returns the ordered sequence of pairs
  of \<open>encontrar_primos_gemelos N\<close>.
\<close>

theorem criba_equiv_generar_primos:
  "1 \<le> limite \<Longrightarrow>
     criba_eratostenes limite = Inr (generar_primos limite) \<and>
     encontrar_primos_gemelos_optimizado limite = Inr (encontrar_primos_gemelos limite)"
  by (simp add: criba_eratostenes_generar_primos encontrar_optimizado_basico)

theorem criba_equiv_generar_primos_witness:
  "(1::int) \<le> 10 \<and>
     criba_eratostenes 10 = Inr (generar_primos 10) \<and>
     encontrar_primos_gemelos_optimizado 10 = Inr (encontrar_primos_gemelos 10)"
  using criba_equiv_generar_primos [of 10] by simp

text \<open>
  C1. The two generators are to produce identical sequences for every
  \<open>N \<ge> 0\<close>. At \<open>N = 0\<close> the code does not: the marker array has one entry,
  the assignment to index 1 raises \<open>IndexError\<close>, and the naive generator
  returns the empty list; the same holds of the two pair finders.
\<close>

theorem criba_0_difiere_de_generar_primos:
  "criba_eratostenes 0 = Inl IndexError \<and> generar_primos 0 = [] \<and>
   encontrar_primos_gemelos_optimizado 0 = Inl IndexError \<and> encontrar_primos_gemelos 0 = []"
  by (simp add: criba_eratostenes_def np_ones_def setitem_def generar_primos_def
      encontrar_primos_gemelos_optimizado_def encontrar_primos_gemelos_def extraer_gemelos_def)



section \<open>Twin-pair extraction\<close>

lemma extraer_indices_in_range:
  "i \<in> set [0..<length primos - 1] \<Longrightarrow> i < length primos \<and> i + 1 < length primos"
  by auto

lemma gemelos_bucle_map_filter:
  "gemelos_bucle primos ks gemelos =
     gemelos @ map (\<lambda>i. (primos ! i, primos ! (i + 1)))
                 (filter (\<lambda>i. primos ! (i + 1) - primos ! i = 2) ks)"
  by (induction ks arbitrary: gemelos) auto

lemma extraer_gemelos_map_filter:
  "extraer_gemelos primos =
     map (\<lambda>i. (primos ! i, primos ! (i + 1)))
       (filter (\<lambda>i. primos ! (i + 1) - primos ! i = 2) [0..<length primos - 1])"
  by (simp add: extraer_gemelos_def gemelos_bucle_map_filter)

lemma sorted_wrt_nth_filter_upt:
  assumes "sorted_wrt (<) (xs :: int list)" "n \<le> length xs"
  shows "sorted_wrt (<) (map (\<lambda>i. xs ! i) (filter P [0..<n]))"
proof -
  have "sorted_wrt (<) (filter P [0..<n])"
    by (rule sorted_wrt_filter) simp
  then have "sorted_wrt (\<lambda>i j. xs ! i < xs ! j) (filter P [0..<n])"
  proof (rule sorted_wrt_mono_rel [rotated])
    fix i j assume "i \<in> set (filter P [0..<n])" "j \<in> set (filter P [0..<n])" "i < j"
    then have "i < j" "j < length xs" using assms(2) by auto
    with assms(1) show "xs ! i < xs ! j" by (simp add: sorted_wrt_nth_less)
  qed
  then show ?thesis by (simp add: sorted_wrt_map)
qed

lemma extraer_gemelos_fst_sorted:
  assumes "sorted_wrt (<) primos"
  shows "sorted_wrt (<) (map fst (extraer_gemelos primos))"
proof -
  have "map fst (extraer_gemelos primos) =
      map (\<lambda>i. primos ! i) (filter (\<lambda>i. primos ! (i + 1) - primos ! i = 2) [0..<length primos - 1])"
    by (simp add: extraer_gemelos_map_filter comp_def)
  then show ?thesis using sorted_wrt_nth_filter_upt [OF assms, of "length primos - 1"] by simp
qed

lemma extraer_gemelos_distinct:
  assumes "sorted_wrt (<) primos"
  shows "distinct (extraer_gemelos primos)"
proof -
  have "distinct (map fst (extraer_gemelos primos))"
    using extraer_gemelos_fst_sorted [OF assms] strict_sorted_iff by blast
  then show ?thesis by (simp add: distinct_map)
qed

lemma extraer_gemelos_members:
  assumes "(p, q) \<in> set (extraer_gemelos primos)"
  shows "p \<in> set primos \<and> q \<in> set primos \<and> q = p + 2"
proof -
  from assms obtain i where i: "i < length primos - 1" "p = primos ! i" "q = primos ! (i + 1)"
      "primos ! (i + 1) - primos ! i = 2"
    by (auto simp: extraer_gemelos_map_filter)
  then have "i < length primos" "i + 1 < length primos" by auto
  with i show ?thesis by (auto simp del: One_nat_def)
qed

text \<open>
  C5. The extraction emits the pair \<open>(primos[i], primos[i+1])\<close> exactly for the
  adjacent indices \<open>i\<close> with \<open>primos[i+1] - primos[i] = 2\<close>, in the order of the
  indices; on a strictly increasing sequence the pairs come in ascending order
  of their first element and no pair is emitted twice; the triplet 3, 5, 7
  yields the two overlapping pairs (3, 5) and (5, 7).
\<close>

theorem extraer_gemelos_correct:
  "extraer_gemelos primos =
     map (\<lambda>i. (primos ! i, primos ! (i + 1)))
       (filter (\<lambda>i. primos ! (i + 1) - primos ! i = 2) [0..<length primos - 1]) \<and>
   (sorted_wrt (<) primos \<longrightarrow>
      sorted_wrt (<) (map fst (extraer_gemelos primos)) \<and> distinct (extraer_gemelos primos)) \<and>
   extraer_gemelos [3, 5, 7] = [(3, 5), (5, 7)]"
proof (intro conjI impI)
  show "extraer_gemelos [3, 5, 7] = [(3, 5), (5, 7)]"
    by (simp add: extraer_gemelos_def upt_rec)
next
  show "extraer_gemelos primos =
     map (\<lambda>i. (primos ! i, primos ! (i + 1)))
       (filter (\<lambda>i. primos ! (i + 1) - primos ! i = 2) [0..<length primos - 1])"
    by (rule extraer_gemelos_map_filter)
qed (simp_all add: extraer_gemelos_fst_sorted extraer_gemelos_distinct)

theorem extraer_gemelos_correct_witness:
  "sorted_wrt (<) [2, 3, 5, 7 :: int] \<and>
   extraer_gemelos [2, 3, 5, 7] = [(3, 5), (5, 7)] \<and>
   sorted_wrt (<) (map fst (extraer_gemelos [2, 3, 5, 7])) \<and>
   distinct (extraer_gemelos [2, 3, 5, 7])"
proof -
  have s: "sorted_wrt (<) [2, 3, 5, 7 :: int]" by simp
  have e: "extraer_gemelos [2, 3, 5, 7] = [(3, 5), (5, 7)]"
    by (simp add: extraer_gemelos_def upt_rec)
  show ?thesis using extraer_gemelos_correct [of "[2, 3, 5, 7]"] s e by simp
qed


section \<open>Distances between consecutive pairs\<close>

lemma generar_primos_sorted: "sorted_wrt (<) (generar_primos limite)"
  unfolding generar_primos_filter by (rule sorted_wrt_filter) simp

lemma generar_primos_set: "n \<in> set (generar_primos limite) \<Longrightarrow> es_primo n \<and> n \<le> limite"
  by (simp add: generar_primos_filter)

lemma gemelo_primero_impar:
  assumes "es_primo p" "es_primo (p + 2)"
  shows "odd p"
proof
  assume ev: "even p"
  from assms(1) have p2: "2 \<le> p" by (simp add: es_primo_iff)
  show False
  proof (cases "p = 2")
    case True
    with assms(2) have "es_primo 4" by simp
    then have "\<not> (2::int) dvd 4" unfolding es_primo_iff by (metis mult_2 numeral_Bit0 order_refl)
    then show False by simp
  next
    case False
    with p2 ev have "(2::int) * 2 \<le> p" by presburger
    with assms(1) ev show False unfolding es_primo_iff by (metis order_refl)
  qed
qed

lemma distancias_bucle_map:
  "distancias_bucle gemelos ks distancias =
     distancias @ map (\<lambda>i. fst (gemelos ! (i + 1)) - fst (gemelos ! i)) ks"
  by (induction ks arbitrary: distancias) (auto simp: Let_def)

lemma analizar_distancias_fst:
  "fst (analizar_distancias_entre_gemelos gemelos) =
     map (\<lambda>i. fst (gemelos ! (i + 1)) - fst (gemelos ! i)) [0..<length gemelos - 1]"
  by (auto simp: analizar_distancias_entre_gemelos_def Let_def distancias_bucle_map)

lemma distancias_pares:
  assumes so: "sorted_wrt (<) (map fst gemelos)"
    and od: "\<And>g. g \<in> set gemelos \<Longrightarrow> odd (fst g)"
    and d: "d \<in> set (fst (analizar_distancias_entre_gemelos gemelos))"
  shows "even d \<and> 2 \<le> d"
proof -
  from d obtain i where i: "i < length gemelos - 1" "d = fst (gemelos ! (i + 1)) - fst (gemelos ! i)"
    by (auto simp: analizar_distancias_fst)
  then have r: "i < length gemelos" "i + 1 < length gemelos" by auto
  then have "map fst gemelos ! i < map fst gemelos ! (i + 1)"
    using so by (intro sorted_wrt_nth_less) auto
  then have lt: "fst (gemelos ! i) < fst (gemelos ! (i + 1))" using r by simp
  have "odd (fst (gemelos ! i))" "odd (fst (gemelos ! (i + 1)))"
    using r od by (auto simp del: One_nat_def)
  then have "even d" using i(2) by simp
  moreover from lt i(2) have "0 < d" by simp
  ultimately show ?thesis by presburger
qed

lemma encontrar_primos_gemelos_props:
  "sorted_wrt (<) (map fst (encontrar_primos_gemelos limite))"
  "g \<in> set (encontrar_primos_gemelos limite) \<Longrightarrow> odd (fst g)"
proof -
  show "sorted_wrt (<) (map fst (encontrar_primos_gemelos limite))"
    unfolding encontrar_primos_gemelos_def
    by (rule extraer_gemelos_fst_sorted) (rule generar_primos_sorted)
next
  assume "g \<in> set (encontrar_primos_gemelos limite)"
  then have "(fst g, snd g) \<in> set (extraer_gemelos (generar_primos limite))"
    by (simp add: encontrar_primos_gemelos_def)
  then have "fst g \<in> set (generar_primos limite) \<and> snd g \<in> set (generar_primos limite) \<and>
      snd g = fst g + 2"
    by (rule extraer_gemelos_members)
  then have m: "fst g \<in> set (generar_primos limite)" "snd g \<in> set (generar_primos limite)"
      "snd g = fst g + 2"
    by blast+
  have "es_primo (fst g)" using generar_primos_set [OF m(1)] by simp
  moreover have "es_primo (fst g + 2)" using generar_primos_set [OF m(2)] m(3) by simp
  ultimately show "odd (fst g)" by (rule gemelo_primero_impar)
qed

text \<open>
  C10. For every limit, every element of the distance series that
  \<open>analizar_distancias_entre_gemelos\<close> computes over the twin pairs of that limit
  is an even integer and at least 2. The pairs are those the sieve path
  returns (it returns for every limit \<open>\<ge> 1\<close>), and those of the naive path.
\<close>

theorem distancias_pares_desde_2:
  "(1 \<le> limite \<longrightarrow> (\<exists>gemelos. encontrar_primos_gemelos_optimizado limite = Inr gemelos)) \<and>
   (\<forall>gemelos. encontrar_primos_gemelos_optimizado limite = Inr gemelos \<longrightarrow>
      (\<forall>d \<in> set (fst (analizar_distancias_entre_gemelos gemelos)). even d \<and> 2 \<le> d)) \<and>
   (\<forall>d \<in> set (fst (analizar_distancias_entre_gemelos (encontrar_primos_gemelos limite))).
      even d \<and> 2 \<le> d)"
proof (intro conjI impI allI ballI)
  assume "1 \<le> limite"
  then show "\<exists>gemelos. encontrar_primos_gemelos_optimizado limite = Inr gemelos"
    by (simp add: encontrar_optimizado_basico)
next
  fix gemelos d
  assume g: "encontrar_primos_gemelos_optimizado limite = Inr gemelos"
    and d: "d \<in> set (fst (analizar_distancias_entre_gemelos gemelos))"
  have "1 \<le> limite"
  proof (rule ccontr)
    assume "\<not> 1 \<le> limite"
    then have "limite + 1 < 0 \<or> limite + 1 = 0 \<or> limite + 1 = 1" by linarith
    then have "\<exists>e. criba_eratostenes limite = Inl e"
      by (auto simp: criba_eratostenes_def np_ones_def setitem_def)
    with g show False by (auto simp: encontrar_primos_gemelos_optimizado_def)
  qed
  then have "gemelos = encontrar_primos_gemelos limite"
    using g by (simp add: encontrar_optimizado_basico)
  with d show "even d" "2 \<le> d"
    using distancias_pares [OF encontrar_primos_gemelos_props(1), of limite d]
      encontrar_primos_gemelos_props(2) by blast+
next
  fix d assume d: "d \<in> set (fst (analizar_distancias_entre_gemelos (encontrar_primos_gemelos limite)))"
  then show "even d" "2 \<le> d"
    using distancias_pares [OF encontrar_primos_gemelos_props(1), of limite d]
      encontrar_primos_gemelos_props(2) by blast+
qed

lemma ejemplo_20: "encontrar_primos_gemelos_optimizado 20 = Inr [(3, 5), (5, 7), (11, 13), (17, 19)]"
  by code_simp

theorem distancias_pares_desde_2_witness:
  "(1::int) \<le> 20 \<and>
   encontrar_primos_gemelos_optimizado 20 = Inr [(3, 5), (5, 7), (11, 13), (17, 19)] \<and>
   fst (analizar_distancias_entre_gemelos [(3, 5), (5, 7), (11, 13), (17, 19)]) = [2, 6, 6] \<and>
   even (fst (analizar_distancias_entre_gemelos [(3, 5), (5, 7), (11, 13), (17, 19)]) ! 1) \<and>
   2 \<le> fst (analizar_distancias_entre_gemelos [(3, 5), (5, 7), (11, 13), (17, 19)]) ! 1"
proof -
  have s: "fst (analizar_distancias_entre_gemelos [(3, 5), (5, 7), (11, 13), (17, 19)]) = [2, 6, 6]"
    by (simp add: analizar_distancias_fst upt_rec)
  show ?thesis
    using distancias_pares_desde_2 [of 20] ejemplo_20 s by simp
qed


lemma filter_prefix_length:
  assumes "k \<le> length s" "\<And>i. i < k \<Longrightarrow> P (s ! i)"
  shows "k \<le> length (filter P s)"
proof -
  have "filter P (take k s) = take k s"
    using assms by (auto simp: filter_id_conv in_set_conv_nth)
  then have "length (filter P (take k s)) = k" using assms(1) by simp
  moreover have "length (filter P s) = length (filter P (take k s)) + length (filter P (drop k s))"
    by (metis append_take_drop_id filter_append length_append)
  ultimately show ?thesis by simp
qed

lemma filter_suffix_length:
  assumes "k \<le> length s" "\<And>i. k \<le> i \<Longrightarrow> i < length s \<Longrightarrow> P (s ! i)"
  shows "length s - k \<le> length (filter P s)"
proof -
  have "filter P (drop k s) = drop k s"
    using assms by (auto simp: filter_id_conv in_set_conv_nth)
  then have "length (filter P (drop k s)) = length s - k" by simp
  moreover have "length (filter P s) = length (filter P (take k s)) + length (filter P (drop k s))"
    by (metis append_take_drop_id filter_append length_append)
  ultimately show ?thesis by simp
qed

lemma length_filter_insort:
  "length (filter P (insort x ys)) = length (filter P (x # ys))"
  by (induction ys) auto

lemma length_filter_sort:
  "length (filter P (sort xs)) = length (filter P xs)"
  by (induction xs) (simp_all add: length_filter_insort)

lemma np_median_is_median:
  assumes "xs \<noteq> []"
  shows "length xs \<le> 2 * length (filter (\<lambda>x. real_of_int x \<le> np_median xs) xs) \<and>
         length xs \<le> 2 * length (filter (\<lambda>x. np_median xs \<le> real_of_int x) xs)"
proof -
  define s where "s = sort xs"
  define n where "n = length xs"
  define h where "h = n div 2"
  have so: "sorted s" and len: "length s = n" by (simp_all add: s_def n_def)
  have n0: "0 < n" using assms by (simp add: n_def)
  have mono: "s ! i \<le> s ! j" if "i \<le> j" "j < n" for i j
    using so that len by (simp add: sorted_nth_mono)
  have hn: "h < n" using n0 by (simp add: h_def)
  show ?thesis
  proof (cases "even n")
    case True
    then have n2: "n = 2 * h" by (auto simp: h_def)
    with n0 have h0: "0 < h" by simp
    have m: "np_median xs = real_of_int (s ! (h - 1) + s ! h) / 2"
      using True by (simp add: np_median_def s_def n_def h_def Let_def)
    have le: "s ! (h - 1) \<le> s ! h" using hn by (intro mono) auto
    have lo: "real_of_int (s ! (h - 1)) \<le> np_median xs" and hi: "np_median xs \<le> real_of_int (s ! h)"
      using le unfolding m by simp_all
    have a: "h \<le> length (filter (\<lambda>x. real_of_int x \<le> np_median xs) s)"
    proof (rule filter_prefix_length)
      show "h \<le> length s" using hn len by simp
      fix i assume "i < h"
      then have "s ! i \<le> s ! (h - 1)" using hn by (intro mono) auto
      with lo show "real_of_int (s ! i) \<le> np_median xs" by linarith
    qed
    have b: "length s - h \<le> length (filter (\<lambda>x. np_median xs \<le> real_of_int x) s)"
    proof (rule filter_suffix_length)
      show "h \<le> length s" using hn len by simp
      fix i assume "h \<le> i" "i < length s"
      then have "s ! h \<le> s ! i" using len by (intro mono) auto
      with hi show "np_median xs \<le> real_of_int (s ! i)" by linarith
    qed
    from a b show ?thesis
      unfolding s_def length_filter_sort using n2 len by (simp add: n_def s_def)
  next
    case False
    then have n2: "n = 2 * h + 1" by (auto simp: h_def elim: oddE)
    have m: "np_median xs = real_of_int (s ! h)"
      using False by (simp add: np_median_def s_def n_def h_def Let_def)
    have a: "h + 1 \<le> length (filter (\<lambda>x. real_of_int x \<le> np_median xs) s)"
    proof (rule filter_prefix_length)
      show "h + 1 \<le> length s" using hn len by simp
      fix i assume "i < h + 1"
      then have "s ! i \<le> s ! h" using hn by (intro mono) auto
      then show "real_of_int (s ! i) \<le> np_median xs" unfolding m by simp
    qed
    have b: "length s - h \<le> length (filter (\<lambda>x. np_median xs \<le> real_of_int x) s)"
    proof (rule filter_suffix_length)
      show "h \<le> length s" using hn len by simp
      fix i assume "h \<le> i" "i < length s"
      then have "s ! h \<le> s ! i" using len by (intro mono) auto
      then show "np_median xs \<le> real_of_int (s ! i)" unfolding m by simp
    qed
    from a b show ?thesis
      unfolding s_def length_filter_sort using n2 len by (simp add: n_def s_def)
  qed
qed

lemma length_distancias:
  "length (fst (analizar_distancias_entre_gemelos gemelos)) = length gemelos - 1"
  by (simp add: analizar_distancias_fst)

text \<open>
  C6. With fewer than 2 pairs \<open>analizar_distancias_entre_gemelos\<close> returns
  \<open>([], 0, 0, 0)\<close> and raises nothing; with at least 2 pairs it returns the gap
  series (the differences of consecutive first primes, one fewer than the
  pairs) with its mean, its median (at least half of the gaps are at or below
  it and at least half at or above) and its population standard deviation
  (divisor \<open>N\<close>).
\<close>

theorem analizar_distancias_correct:
  "(length gemelos < 2 \<longrightarrow> analizar_distancias_entre_gemelos gemelos = ([], 0, 0, 0)) \<and>
   (2 \<le> length gemelos \<longrightarrow>
      (\<exists>distancias media mediana desviacion.
         analizar_distancias_entre_gemelos gemelos = (distancias, media, mediana, desviacion) \<and>
         length distancias = length gemelos - 1 \<and>
         (\<forall>i < length distancias. distancias ! i = fst (gemelos ! (i + 1)) - fst (gemelos ! i)) \<and>
         media = (\<Sum>d\<leftarrow>distancias. real_of_int d) / real (length distancias) \<and>
         mediana = np_median distancias \<and>
         length distancias \<le> 2 * length (filter (\<lambda>d. real_of_int d \<le> mediana) distancias) \<and>
         length distancias \<le> 2 * length (filter (\<lambda>d. mediana \<le> real_of_int d) distancias) \<and>
         0 \<le> desviacion \<and>
         desviacion\<^sup>2 = (\<Sum>d\<leftarrow>distancias. (real_of_int d - media)\<^sup>2) / real (length distancias)))"
proof (intro conjI impI)
  assume "length gemelos < 2"
  then show "analizar_distancias_entre_gemelos gemelos = ([], 0, 0, 0)"
    by (simp add: analizar_distancias_entre_gemelos_def)
next
  assume g: "2 \<le> length gemelos"
  define distancias where
    "distancias = map (\<lambda>i. fst (gemelos ! (i + 1)) - fst (gemelos ! i)) [0..<length gemelos - 1]"
  have a: "analizar_distancias_entre_gemelos gemelos =
      (distancias, np_mean distancias, np_median distancias, np_std 0 distancias)"
    using g by (simp add: analizar_distancias_entre_gemelos_def Let_def distancias_bucle_map
        distancias_def)
  have nn: "0 \<le> (\<Sum>d\<leftarrow>distancias. (real_of_int d - np_mean distancias)\<^sup>2) / real (length distancias)"
    by (intro divide_nonneg_nonneg sum_list_nonneg) auto
  show "\<exists>distancias media mediana desviacion.
         analizar_distancias_entre_gemelos gemelos = (distancias, media, mediana, desviacion) \<and>
         length distancias = length gemelos - 1 \<and>
         (\<forall>i < length distancias. distancias ! i = fst (gemelos ! (i + 1)) - fst (gemelos ! i)) \<and>
         media = (\<Sum>d\<leftarrow>distancias. real_of_int d) / real (length distancias) \<and>
         mediana = np_median distancias \<and>
         length distancias \<le> 2 * length (filter (\<lambda>d. real_of_int d \<le> mediana) distancias) \<and>
         length distancias \<le> 2 * length (filter (\<lambda>d. mediana \<le> real_of_int d) distancias) \<and>
         0 \<le> desviacion \<and>
         desviacion\<^sup>2 = (\<Sum>d\<leftarrow>distancias. (real_of_int d - media)\<^sup>2) / real (length distancias)"
  proof (intro exI conjI)
    show "analizar_distancias_entre_gemelos gemelos =
      (distancias, np_mean distancias, np_median distancias, np_std 0 distancias)" by (rule a)
    show "length distancias = length gemelos - 1" by (simp add: distancias_def)
    show "\<forall>i < length distancias. distancias ! i = fst (gemelos ! (i + 1)) - fst (gemelos ! i)"
      by (simp add: distancias_def)
    show "np_mean distancias = (\<Sum>d\<leftarrow>distancias. real_of_int d) / real (length distancias)"
      by (simp add: np_mean_def)
    show "np_median distancias = np_median distancias" ..
    have "distancias \<noteq> []" using g by (auto simp: distancias_def)
    from np_median_is_median [OF this]
    show "length distancias
          \<le> 2 * length (filter (\<lambda>d. real_of_int d \<le> np_median distancias) distancias)"
      and "length distancias
          \<le> 2 * length (filter (\<lambda>d. np_median distancias \<le> real_of_int d) distancias)"
      by simp_all
    show "0 \<le> np_std 0 distancias" using nn by (simp add: np_std_def)
    show "(np_std 0 distancias)\<^sup>2 =
        (\<Sum>d\<leftarrow>distancias. (real_of_int d - np_mean distancias)\<^sup>2) / real (length distancias)"
      using nn by (simp add: np_std_def)
  qed
qed

lemma ejemplo_distancias_10:
  "analizar_distancias_entre_gemelos [(3, 5), (5, 7)] = ([2], 2, 2, 0)"
  by (simp add: analizar_distancias_entre_gemelos_def np_mean_def np_median_def np_std_def)

lemma ejemplo_distancias_20:
  "fst (analizar_distancias_entre_gemelos [(3, 5), (5, 7), (11, 13), (17, 19)]) = [2, 6, 6] \<and>
   fst (snd (analizar_distancias_entre_gemelos [(3, 5), (5, 7), (11, 13), (17, 19)])) = 14 / 3 \<and>
   fst (snd (snd (analizar_distancias_entre_gemelos [(3, 5), (5, 7), (11, 13), (17, 19)]))) = 6"
  by (simp add: analizar_distancias_entre_gemelos_def np_mean_def np_median_def upt_rec
      sort_key_def insort_key_def Let_def)

theorem analizar_distancias_correct_witness:
  "length [(3, 5) :: int \<times> int] < 2 \<and>
   analizar_distancias_entre_gemelos [(3, 5)] = ([], 0, 0, 0) \<and>
   2 \<le> length [(3, 5), (5, 7) :: int \<times> int] \<and>
   analizar_distancias_entre_gemelos [(3, 5), (5, 7)] = ([2], 2, 2, 0)"
  using analizar_distancias_correct [of "[(3, 5)]"] analizar_distancias_correct [of "[(3, 5), (5, 7)]"]
    ejemplo_distancias_10
  by simp


section \<open>Small and non-positive limits\<close>

lemma criba_1: "criba_eratostenes 1 = Inr []"
  by code_simp

lemma criba_2: "criba_eratostenes 2 = Inr [2]"
  by code_simp

text \<open>
  At limit 1 \<open>criba_eratostenes\<close> returns the empty sequence and the twin-pair
  sequence is empty; at limit 2 it returns exactly \<open>[2]\<close>.
\<close>

theorem criba_limites_pequenos:
  "(\<forall>limite. 1 \<le> limite \<and> limite < 2 \<longrightarrow>
      criba_eratostenes limite = Inr [] \<and> encontrar_primos_gemelos_optimizado limite = Inr []) \<and>
   criba_eratostenes 2 = Inr [2]"
proof (intro conjI allI impI)
  fix limite :: int assume "1 \<le> limite \<and> limite < 2"
  then have l: "limite = 1" by simp
  show "criba_eratostenes limite = Inr []" unfolding l by (rule criba_1)
  then show "encontrar_primos_gemelos_optimizado limite = Inr []"
    by (simp add: encontrar_primos_gemelos_optimizado_def extraer_gemelos_def)
next
  show "criba_eratostenes 2 = Inr [2]" by (rule criba_2)
qed

theorem criba_limites_pequenos_witness:
  "(1::int) \<le> 1 \<and> (1::int) < 2 \<and>
   criba_eratostenes 1 = Inr [] \<and> encontrar_primos_gemelos_optimizado 1 = Inr []"
  using criba_limites_pequenos by simp

text \<open>
  C3. For every limit below 2 the sieve is to return the empty sequence, and
  the pair sequence is to be empty. At limit 0 the code does not: the sieve and
  the pair finder raise \<open>IndexError\<close>, where the naive generator returns the
  empty sequence.
\<close>

theorem criba_limite_0_no_vacio:
  "(0::int) < 2 \<and> criba_eratostenes 0 = Inl IndexError \<and>
   encontrar_primos_gemelos_optimizado 0 = Inl IndexError \<and>
   criba_eratostenes 0 \<noteq> Inr [] \<and> encontrar_primos_gemelos_optimizado 0 \<noteq> Inr [] \<and>
   generar_primos 0 = []"
  by (simp add: criba_eratostenes_def np_ones_def setitem_def
      encontrar_primos_gemelos_optimizado_def generar_primos_def)

text \<open>
  The method \<open>generar_primos\<close> of the window rejects a non-positive limit
  before it calls a generator, and never fails; for every limit \<open>\<ge> 1\<close> the
  sieve returns without a failure.
\<close>

theorem limite_no_positivo_rechazado_por_la_entrada:
  "(limite \<le> 0 \<longrightarrow> interfaz_generar_primos m limite = Inr LimiteRechazado) \<and>
   (1 \<le> limite \<longrightarrow> (\<exists>primos. criba_eratostenes limite = Inr primos)) \<and>
   (\<exists>r. interfaz_generar_primos m limite = Inr r)"
proof (intro conjI impI)
  assume "limite \<le> 0"
  then show "interfaz_generar_primos m limite = Inr LimiteRechazado"
    by (simp add: interfaz_generar_primos_def)
next
  assume "1 \<le> limite"
  then show "\<exists>primos. criba_eratostenes limite = Inr primos"
    by (simp add: criba_eratostenes_generar_primos)
next
  show "\<exists>r. interfaz_generar_primos m limite = Inr r"
  proof (cases "limite \<le> 0")
    case True
    then show ?thesis by (simp add: interfaz_generar_primos_def)
  next
    case False
    then have "1 \<le> limite" by simp
    then show ?thesis
      by (cases m) (simp_all add: interfaz_generar_primos_def encontrar_optimizado_basico)
  qed
qed

theorem limite_no_positivo_rechazado_por_la_entrada_witness:
  "(-3::int) \<le> 0 \<and> interfaz_generar_primos Optimizado (-3) = Inr LimiteRechazado \<and>
   (1::int) \<le> 10 \<and> (\<exists>primos. criba_eratostenes 10 = Inr primos)"
  using limite_no_positivo_rechazado_por_la_entrada [of "-3" Optimizado]
    limite_no_positivo_rechazado_por_la_entrada [of 10 Optimizado]
  by simp

text \<open>
  C2. The sieve is to reject every non-positive limit before it allocates the
  marker array, as a validation failure and never a crash. The code does not:
  \<open>criba_eratostenes\<close> validates nothing. At the limits 0 and -1 the marker
  array is allocated and an index assignment then raises \<open>IndexError\<close>; at -2
  the allocation itself raises \<open>ValueError\<close>.
\<close>

theorem criba_sin_validacion:
  "(0::int) \<le> 0 \<and> np_ones (0 + 1) = Inr [True] \<and> criba_eratostenes 0 = Inl IndexError \<and>
   (-1::int) \<le> 0 \<and> np_ones (-1 + 1) = Inr [] \<and> criba_eratostenes (-1) = Inl IndexError \<and>
   (-2::int) \<le> 0 \<and> np_ones (-2 + 1) = Inl ValueError \<and> criba_eratostenes (-2) = Inl ValueError"
  by (simp add: criba_eratostenes_def np_ones_def setitem_def)


section \<open>Density over windows\<close>

lemma densidad_bucle_map:
  "densidad_bucle primeros ventanas tam ks (cs, ds) =
     (cs @ map (\<lambda>i. real_of_int (ventanas ! i + ventanas ! (i + 1)) / 2) ks,
      ds @ map (\<lambda>i. real (length (filter (\<lambda>p. ventanas ! i \<le> p \<and> p < ventanas ! (i + 1)) primeros))
                       / real_of_int tam) ks)"
  by (induction ks arbitrary: cs ds) (simp_all add: Let_def)

lemma calcular_densidad_eq:
  assumes "0 < tam"
  shows "calcular_densidad gemelos limite tam =
     Inr (map (\<lambda>k. (real k + 1 / 2) * real_of_int tam) [0..<nat (- ((- limite) div tam)) - 1],
          map (\<lambda>k. real (length (filter (\<lambda>g. int k * tam \<le> fst g \<and> fst g < (int k + 1) * tam) gemelos))
                     / real_of_int tam) [0..<nat (- ((- limite) div tam)) - 1])"
proof -
  define n where "n = nat (- ((- limite) div tam))"
  define ventanas where "ventanas = map (\<lambda>k. int k * tam) [0..<n]"
  have ar: "np_arange limite tam = Inr ventanas"
    using assms by (simp add: np_arange_def ventanas_def n_def)
  have len: "length ventanas = n" by (simp add: ventanas_def)
  have v: "ventanas ! i = int i * tam" "ventanas ! Suc i = (int i + 1) * tam" if "i < n - 1" for i
  proof -
    from that have r: "i < n" "Suc i < n" by simp_all
    show "ventanas ! i = int i * tam" using r(1) by (simp add: ventanas_def)
    show "ventanas ! Suc i = (int i + 1) * tam"
      using r(2) unfolding ventanas_def by simp
  qed
  have c: "map (\<lambda>i. real_of_int (ventanas ! i + ventanas ! (i + 1)) / 2) [0..<n - 1]
      = map (\<lambda>k. (real k + 1 / 2) * real_of_int tam) [0..<n - 1]"
    by (rule map_cong [OF refl]) (simp add: v algebra_simps)
  have d: "map (\<lambda>i. real (length (filter (\<lambda>p. ventanas ! i \<le> p \<and> p < ventanas ! (i + 1))
                 (map fst gemelos))) / real_of_int tam) [0..<n - 1]
      = map (\<lambda>k. real (length (filter (\<lambda>g. int k * tam \<le> fst g \<and> fst g < (int k + 1) * tam) gemelos))
                     / real_of_int tam) [0..<n - 1]"
    by (rule map_cong [OF refl]) (simp add: v filter_map comp_def)
  have "calcular_densidad gemelos limite tam =
      Inr (densidad_bucle (map fst gemelos) ventanas tam [0..<n - 1] ([], []))"
    by (simp add: calcular_densidad_def ar len)
  also have "\<dots> = Inr (map (\<lambda>k. (real k + 1 / 2) * real_of_int tam) [0..<n - 1],
          map (\<lambda>k. real (length (filter (\<lambda>g. int k * tam \<le> fst g \<and> fst g < (int k + 1) * tam) gemelos))
                     / real_of_int tam) [0..<n - 1])"
    unfolding densidad_bucle_map c d by simp
  finally show ?thesis unfolding n_def .
qed

lemma ceil_div_multiple:
  assumes "0 < (tam::int)" "tam dvd limite"
  shows "- ((- limite) div tam) = limite div tam"
  using assms by (metis dvd_neg_div minus_minus)

lemma ceil_div_not_multiple:
  assumes "0 < (tam::int)" "\<not> tam dvd limite"
  shows "- ((- limite) div tam) = limite div tam + 1"
  using assms by (simp add: zdiv_zminus1_eq_if dvd_eq_mod_eq_0)

text \<open>
  C7, as amended. For a window size \<open>w > 0\<close>, \<open>calcular_densidad\<close> sweeps the
  windows \<open>[k w, (k+1) w)\<close> for \<open>k = 0, ..., nv - 1\<close>; for each it returns the
  centre and the number of pairs whose first element \<open>p\<close> has
  \<open>k w \<le> p < (k+1) w\<close>, divided by \<open>w\<close>. The sweep always stops one window
  early: \<open>nv\<close> is \<open>limit div w\<close> when \<open>limit\<close> is not a multiple of \<open>w\<close> (the
  partial window is dropped) and \<open>limit div w - 1\<close> when it is (the last full
  window is dropped). The size the analysis passes is \<open>max (limit div 100) 10\<close>.
\<close>

theorem calcular_densidad_ventanas:
  "0 < tam \<Longrightarrow>
     (\<exists>nv. calcular_densidad gemelos limite tam =
         Inr (map (\<lambda>k. (real k + 1 / 2) * real_of_int tam) [0..<nv],
              map (\<lambda>k. real (length (filter (\<lambda>g. int k * tam \<le> fst g \<and> fst g < (int k + 1) * tam)
                                         gemelos)) / real_of_int tam) [0..<nv]) \<and>
         (tam dvd limite \<longrightarrow> nv = nat (limite div tam) - 1) \<and>
         (\<not> tam dvd limite \<longrightarrow> nv = nat (limite div tam + 1) - 1)) \<and>
     tam_ventana_analisis limite = max (limite div 100) 10 \<and> 0 < tam_ventana_analisis limite"
proof (intro conjI)
  assume t: "0 < tam"
  show "\<exists>nv. calcular_densidad gemelos limite tam =
         Inr (map (\<lambda>k. (real k + 1 / 2) * real_of_int tam) [0..<nv],
              map (\<lambda>k. real (length (filter (\<lambda>g. int k * tam \<le> fst g \<and> fst g < (int k + 1) * tam)
                                         gemelos)) / real_of_int tam) [0..<nv]) \<and>
         (tam dvd limite \<longrightarrow> nv = nat (limite div tam) - 1) \<and>
         (\<not> tam dvd limite \<longrightarrow> nv = nat (limite div tam + 1) - 1)"
    using calcular_densidad_eq [OF t, of gemelos limite]
      ceil_div_multiple [OF t, of limite] ceil_div_not_multiple [OF t, of limite]
    by (intro exI [of _ "nat (- ((- limite) div tam)) - 1"]) auto
qed (simp_all add: tam_ventana_analisis_def)

lemma ejemplo_densidad_20:
  "calcular_densidad [(3, 5), (5, 7), (11, 13), (17, 19)] 20 10 = Inr ([5], [1 / 5])"
  by (simp add: calcular_densidad_eq)

theorem calcular_densidad_ventanas_witness:
  "(0::int) < 10 \<and>
   calcular_densidad [(3, 5), (5, 7), (11, 13), (17, 19)] 25 10 = Inr ([5, 15], [1 / 5, 1 / 5])"
proof -
  have "\<not> (10::int) dvd 25" by simp
  then show ?thesis
    using calcular_densidad_ventanas [of 10 "[(3, 5), (5, 7), (11, 13), (17, 19)]" 25]
    by (auto simp: upt_rec numeral_2_eq_2)
qed

text \<open>
  At limit 20 the analysis' window size is 10, of which 20 is an exact multiple:
  the partition of \<open>[0, 20)\<close> has the two windows of \<open>densidad_segun_spec\<close>, and
  \<open>calcular_densidad\<close> returns one; the pairs (11, 13) and (17, 19) are counted
  nowhere.
\<close>

theorem calcular_densidad_ventanas_counterexample:
  "(10::int) dvd 20 \<and> tam_ventana_analisis 20 = 10 \<and>
   calcular_densidad [(3, 5), (5, 7), (11, 13), (17, 19)] 20 (tam_ventana_analisis 20)
     = Inr ([5], [1 / 5]) \<and>
   densidad_segun_spec [(3, 5), (5, 7), (11, 13), (17, 19)] 20 (tam_ventana_analisis 20)
     = ([5, 15], [1 / 5, 1 / 5])"
  by (simp add: tam_ventana_analisis_def ejemplo_densidad_20 densidad_segun_spec_def upt_rec
      numeral_2_eq_2)


section \<open>Share of the primes in twin pairs\<close>





lemma ejemplo_proporcion_salto:
  "proporcion_bucle [2, 3, 5, 7, 11, 13] [(3, 5), (5, 7), (11, 13)] [0, 8, 10, 14]
     [0..<length [0, 8, 10, 14 :: real] - 1] ([], []) = ([1, 1], [4, 12])"
  by (simp add: upt_rec numeral_3_eq_3)

lemma linspace_30: "np_linspace (\<lambda>k. 15) 30 3 = Inr [0, 15, 30]"
  by (simp add: np_linspace_def upt_rec numeral_3_eq_3)


lemma ejemplo_proporcion_30:
  "proporcion_analisis (\<lambda>k. 15) 30 = Inr ([1, 1 / 2], [15 / 2, 45 / 2])"
proof -
  have p: "generar_primos 30 = [2, 3, 5, 7, 11, 13, 17, 19, 23, 29]" by code_simp
  have g: "encontrar_primos_gemelos 30 = [(3, 5), (5, 7), (11, 13), (17, 19)]" by code_simp
  show ?thesis
    by (simp add: proporcion_analisis_def encontrar_optimizado_basico
        criba_eratostenes_generar_primos p g linspace_30 upt_rec)
qed


section \<open>Comparison with the theoretical estimate\<close>












end
